theory Spec2Isabelle
  imports Complex_Main "HOL-Library.Char_ord" "HOL-Library.List_Lexorder"
begin

section \<open>Data model\<close>

text \<open>
  The two engines of the repository, \<^verbatim>\<open>scripts/_2pagesPerSheet.py\<close> (2-up imposition) and
  \<^verbatim>\<open>scripts/_merge.py\<close> (concatenation), embedded as HOL functions.

  Python floats are modelled as \<open>real\<close> and Python integers as \<open>int\<close>/\<open>nat\<close>; a float
  division by zero raises in Python and is an error branch here. Every \<^verbatim>\<open>raise\<close> of the
  source is an \<open>Inl\<close> value, the \<^verbatim>\<open>except Exception\<close> boundary of each engine turns it
  into the boolean \<open>False\<close>. The \<^verbatim>\<open>print\<close> calls are not modelled.
\<close>

datatype error =
    ValueError string
  | FileNotFoundError string
  | ZeroDivisionError
  | IndexError
  | PdfReadError
  | OSError

text \<open>
  The \<^verbatim>\<open>/Rotate\<close> entry of a page dictionary as \<^verbatim>\<open>src.get("/Rotate", 0)\<close> sees it: absent,
  a number that \<^verbatim>\<open>int()\<close> accepts, or an object on which \<^verbatim>\<open>int()\<close> raises.
\<close>

datatype rotate_entry = RotateAbsent | RotateInt int | RotateMalformed

text \<open>
  A \<^verbatim>\<open>Transformation\<close> is kept symbolically: the list of the operations composed so far,
  in the order in which they are applied to the content.
\<close>

datatype op = OpRotate real | OpScale real real | OpTranslate real real

type_synonym transformation = "op list"

datatype content = SourceContent string | Layers "(content \<times> transformation) list"

record page =
  mediabox_width :: real
  mediabox_height :: real
  page_rotate :: rotate_entry
  page_content :: content

record document =
  pages :: "page list"
  outline :: "string list"

datatype fs_entry = PdfFile document | Directory "string list" | NotPdf

text \<open>
  The output document that \<^verbatim>\<open>merge_pdfs\<close> builds: what a \<^verbatim>\<open>PdfWriter\<close> holds of it.
\<close>

record writer =
  w_pages :: "page list"
  w_outline :: "string list"

text \<open>
  The environment of a call: the file system, and of the PDF library the one thing the
  repository's code leaves to it, namely whether \<^verbatim>\<open>clone_reader_document_root\<close> raises on a
  given writer and reader and, if it does, with which exception and which writer left
  behind.
\<close>

record world =
  files :: "string \<Rightarrow> fs_entry option"
  writable :: "string \<Rightarrow> bool"
  clone_raises :: "writer \<Rightarrow> document \<Rightarrow> (error \<times> writer) option"

datatype page_size_arg = SizeName string | SizeTuple real real

section \<open>The collaborators: PDF library, page sizes, file system\<close>

definition A4 :: "real \<times> real" where
  \<comment> \<open>Modelled from the spec: \<^verbatim>\<open>reportlab.lib.pagesizes.A4\<close>, 210 mm by 297 mm in points
      (1 mm = 72 / 25.4 pt); the constant is imported, not defined in the repository.\<close>
  "A4 = (210 * (72 / (254 / 10)), 297 * (72 / (254 / 10)))"

definition letter :: "real \<times> real" where
  \<comment> \<open>Modelled from the spec: \<^verbatim>\<open>reportlab.lib.pagesizes.letter\<close>, 8.5 in by 11 in in points.\<close>
  "letter = (612, 792)"

definition upper_char :: "char \<Rightarrow> char" where
  "upper_char c =
     (let n = (of_char c :: nat) in if 97 \<le> n \<and> n \<le> 122 then char_of (n - 32) else c)"

definition lower_char :: "char \<Rightarrow> char" where
  "lower_char c =
     (let n = (of_char c :: nat) in if 65 \<le> n \<and> n \<le> 90 then char_of (n + 32) else c)"

definition upper :: "string \<Rightarrow> string" where
  \<comment> \<open>\<^verbatim>\<open>str.upper()\<close> on ASCII text.\<close>
  "upper s = map upper_char s"

definition lower :: "string \<Rightarrow> string" where
  \<comment> \<open>\<^verbatim>\<open>str.lower()\<close> on ASCII text.\<close>
  "lower s = map lower_char s"

definition os_path_exists :: "world \<Rightarrow> string \<Rightarrow> bool" where
  "os_path_exists w p = (files w p \<noteq> None)"

definition os_path_isdir :: "world \<Rightarrow> string \<Rightarrow> bool" where
  "os_path_isdir w p = (case files w p of Some (Directory _) \<Rightarrow> True | _ \<Rightarrow> False)"

definition PdfReader :: "world \<Rightarrow> string \<Rightarrow> error + document" where
  \<comment> \<open>Modelled from the spec: the library opens a document read-only from a source path;
      a missing path, a directory and a file that is no PDF are the not-found, I/O and
      parse failures of the spec's error kinds.\<close>
  "PdfReader w p =
     (case files w p of
        None \<Rightarrow> Inl (FileNotFoundError p)
      | Some (PdfFile d) \<Rightarrow> Inr d
      | Some (Directory _) \<Rightarrow> Inl OSError
      | Some NotPdf \<Rightarrow> Inl PdfReadError)"

definition create_blank_page :: "real \<Rightarrow> real \<Rightarrow> page" where
  \<comment> \<open>Modelled from the spec: a newly created output page starts blank with an explicit
      (width, height).\<close>
  "create_blank_page width height =
     \<lparr>mediabox_width = width, mediabox_height = height,
      page_rotate = RotateAbsent, page_content = Layers []\<rparr>"

definition merge_transformed_page :: "page \<Rightarrow> page \<Rightarrow> transformation \<Rightarrow> page" where
  \<comment> \<open>Modelled from the spec: the library merges a source page's content onto a destination
      page under a given transform.\<close>
  "merge_transformed_page dst src t =
     dst\<lparr>page_content :=
       (case page_content dst of
          Layers ls \<Rightarrow> Layers (ls @ [(page_content src, t)])
        | SourceContent c \<Rightarrow> Layers [(SourceContent c, []), (page_content src, t)])\<rparr>"

definition write_pdf :: "world \<Rightarrow> string \<Rightarrow> document \<Rightarrow> error + world" where
  \<comment> \<open>Modelled from the spec: \<^verbatim>\<open>open(path, "wb")\<close> followed by \<^verbatim>\<open>writer.write\<close>; an
      unwritable destination is the I/O failure of the spec's error kinds.\<close>
  "write_pdf w p d =
     (if writable w p \<and> \<not> os_path_isdir w p
      then Inr (w\<lparr>files := (files w)(p \<mapsto> PdfFile d)\<rparr>)
      else Inl OSError)"

section \<open>The imposition engine: \<^verbatim>\<open>create_2_pages_per_sheet\<close>\<close>

definition resolve_page_size :: "page_size_arg \<Rightarrow> error + real \<times> real" where
  \<comment> \<open>Lines 28-34.\<close>
  "resolve_page_size page_size =
     (case page_size of
        SizeName s \<Rightarrow>
          (if upper s = ''A4'' then Inr A4
           else Inl (ValueError
             ''Unknown page_size string. Use 'A4' or provide (w,h) in points.''))
      | SizeTuple page_w page_h \<Rightarrow> Inr (page_w, page_h))"

definition page_rotation :: "page \<Rightarrow> int" where
  \<comment> \<open>Lines 69-72: \<^verbatim>\<open>int(src.get("/Rotate", 0)) % 360\<close>, and 0 when that raises.\<close>
  "page_rotation src =
     (case page_rotate src of
        RotateAbsent \<Rightarrow> 0 mod 360
      | RotateInt r \<Rightarrow> r mod 360
      | RotateMalformed \<Rightarrow> 0)"

definition viewed_dims :: "int \<Rightarrow> real \<Rightarrow> real \<Rightarrow> real \<times> real" where
  \<comment> \<open>Lines 75-80.\<close>
  "viewed_dims rotation orig_src_w orig_src_h =
     (if rotation = 90 \<or> rotation = 270 then (orig_src_h, orig_src_w)
      else (orig_src_w, orig_src_h))"

definition fit_scale :: "real \<Rightarrow> real \<Rightarrow> real \<Rightarrow> real \<Rightarrow> bool \<Rightarrow> error + real" where
  \<comment> \<open>Lines 83-87; each float division raises on a zero divisor.\<close>
  "fit_scale available_width available_height viewed_w viewed_h scale_up =
     (if viewed_w = 0 then Inl ZeroDivisionError
      else let scale_x = available_width / viewed_w in
        if viewed_h = 0 then Inl ZeroDivisionError
        else let scale_y = available_height / viewed_h;
                 scale = min scale_x scale_y
             in Inr (if \<not> scale_up then min scale 1 else scale))"

definition flatten :: "int \<Rightarrow> real \<Rightarrow> real \<Rightarrow> transformation \<Rightarrow> error + transformation" where
  \<comment> \<open>Lines 104-117: bake \<^verbatim>\<open>/Rotate\<close> into the content.\<close>
  "flatten rotation orig_src_w orig_src_h transform =
     (if rotation \<noteq> 0 then
        let rot_deg = - rotation in
        if rotation = 90 then
          Inr (transform @ [OpRotate (real_of_int rot_deg), OpTranslate 0 orig_src_w])
        else if rotation = 180 then
          Inr (transform @ [OpRotate (real_of_int rot_deg), OpTranslate orig_src_w orig_src_h])
        else if rotation = 270 then
          Inr (transform @ [OpRotate (real_of_int rot_deg), OpTranslate orig_src_h 0])
        else Inl (ValueError ''Rotation must be a multiple of 90 degrees.'')
      else Inr transform)"

record layout =
  output_width :: real
  output_height :: real
  available_width :: real
  available_height :: real
  scale_up :: bool

definition page_transform :: "layout \<Rightarrow> nat \<Rightarrow> page \<Rightarrow> error + transformation" where
  \<comment> \<open>Lines 64-120 for one source page on one side (0 left, 1 right).\<close>
  "page_transform L side src =
     (let orig_src_w = mediabox_width src;
          orig_src_h = mediabox_height src;
          rotation = page_rotation src;
          (viewed_w, viewed_h) = viewed_dims rotation orig_src_w orig_src_h
      in case fit_scale (available_width L) (available_height L) viewed_w viewed_h (scale_up L) of
           Inl e \<Rightarrow> Inl e
         | Inr scale \<Rightarrow>
             let scaled_w = viewed_w * scale;
                 scaled_h = viewed_h * scale;
                 center_x = output_width L * (if side = 0 then 25 / 100 else 75 / 100);
                 center_y = output_height L / 2;
                 tx = center_x - scaled_w / 2;
                 ty = center_y - scaled_h / 2
             in case flatten rotation orig_src_w orig_src_h [] of
                  Inl e \<Rightarrow> Inl e
                | Inr transform \<Rightarrow> Inr (transform @ [OpScale scale scale, OpTranslate tx ty]))"

definition place_side :: "layout \<Rightarrow> page list \<Rightarrow> nat \<Rightarrow> nat \<Rightarrow> page \<Rightarrow> error + page" where
  \<comment> \<open>Lines 59-123: one pass of the inner loop over \<^verbatim>\<open>side\<close>.\<close>
  "place_side L reader_pages i side new_page =
     (let src_index = i + side in
      if src_index \<ge> length reader_pages then Inr new_page
      else let src = reader_pages ! src_index in
        case page_transform L side src of
          Inl e \<Rightarrow> Inl e
        | Inr transform \<Rightarrow> Inr (merge_transformed_page new_page src transform))"

definition make_sheet :: "layout \<Rightarrow> page list \<Rightarrow> nat \<Rightarrow> error + page" where
  \<comment> \<open>Lines 56-123: the body of the outer loop up to \<^verbatim>\<open>writer.add_page\<close>.\<close>
  "make_sheet L reader_pages i =
     (let new_page = create_blank_page (output_width L) (output_height L) in
      case place_side L reader_pages i 0 new_page of
        Inl e \<Rightarrow> Inl e
      | Inr new_page1 \<Rightarrow> place_side L reader_pages i 1 new_page1)"

function sheets_loop :: "layout \<Rightarrow> page list \<Rightarrow> nat \<Rightarrow> page list \<Rightarrow> error + page list" where
  \<comment> \<open>Lines 54-125: \<^verbatim>\<open>for i in range(0, total_pages, 2)\<close>, the writer's pages accumulated.\<close>
  "sheets_loop L reader_pages i writer =
     (if i \<ge> length reader_pages then Inr writer
      else case make_sheet L reader_pages i of
             Inl e \<Rightarrow> Inl e
           | Inr new_page \<Rightarrow> sheets_loop L reader_pages (i + 2) (writer @ [new_page]))"
  by pat_completeness auto
termination
  by (relation "measure (\<lambda>(L, reader_pages, i, writer). length reader_pages - i)") auto

declare sheets_loop.simps [simp del]

definition impose :: "world \<Rightarrow> string \<Rightarrow> string \<Rightarrow> page_size_arg \<Rightarrow> real \<Rightarrow> bool \<Rightarrow> error + world" where
  \<comment> \<open>Lines 27-133: the body of the \<^verbatim>\<open>try\<close> block; \<open>Inl\<close> is the exception it raises.\<close>
  "impose w input_pdf_path output_pdf_path page_size margin_pt su =
     (case resolve_page_size page_size of
        Inl e \<Rightarrow> Inl e
      | Inr (page_w, page_h) \<Rightarrow>
          let out_w = max page_w page_h;
              out_h = min page_w page_h
          in case PdfReader w input_pdf_path of
               Inl e \<Rightarrow> Inl e
             | Inr reader \<Rightarrow>
                 let half_width = out_w / 2;
                     avail_w = half_width - 2 * margin_pt;
                     avail_h = out_h - 2 * margin_pt
                 in if avail_w \<le> 0 \<or> avail_h \<le> 0
                    then Inl (ValueError ''Margins too large for chosen page size.'')
                    else
                      case sheets_loop
                             \<lparr>output_width = out_w, output_height = out_h,
                              available_width = avail_w, available_height = avail_h,
                              scale_up = su\<rparr>
                             (pages reader) 0 [] of
                        Inl e \<Rightarrow> Inl e
                      | Inr writer \<Rightarrow>
                          write_pdf w output_pdf_path
                            \<lparr>pages = writer, outline = []\<rparr>)"

definition create_2_pages_per_sheet ::
  "world \<Rightarrow> string \<Rightarrow> string \<Rightarrow> page_size_arg \<Rightarrow> real \<Rightarrow> bool \<Rightarrow> bool \<times> world" where
  \<comment> \<open>Lines 26-139: the \<^verbatim>\<open>except Exception\<close> boundary returns \<^verbatim>\<open>False\<close>.\<close>
  "create_2_pages_per_sheet w input_pdf_path output_pdf_path page_size margin_pt su =
     (case impose w input_pdf_path output_pdf_path page_size margin_pt su of
        Inl e \<Rightarrow> (False, w)
      | Inr w' \<Rightarrow> (True, w'))"

definition splitext :: "string \<Rightarrow> string \<times> string" where
  \<comment> \<open>\<^verbatim>\<open>os.path.splitext\<close> of the standard library on POSIX paths: the extension starts at
      the last dot of the last path component, leading dots of that component apart.\<close>
  "splitext p =
     (let n = length p;
          sep_end = n - length (takeWhile (\<lambda>c. c \<noteq> CHR ''/'') (rev p));
          dots = length (takeWhile (\<lambda>c. c \<noteq> CHR ''.'') (rev p))
      in if dots < n \<and> sep_end < n - dots
            \<and> list_ex (\<lambda>c. c \<noteq> CHR ''.'') (take (n - dots - 1 - sep_end) (drop sep_end p))
         then (take (n - dots - 1) p, drop (n - dots - 1) p)
         else (p, []))"

definition convert_pdf_2_pages_per_sheet ::
  "world \<Rightarrow> string \<Rightarrow> string option \<Rightarrow> string \<Rightarrow> bool \<times> world" where
  \<comment> \<open>Lines 150-164; the engine is called with its default margin 12.0 and
      \<^verbatim>\<open>scale_up=False\<close>.\<close>
  "convert_pdf_2_pages_per_sheet w input_path output_path page_format =
     (if \<not> os_path_exists w input_path then (False, w)
      else
        let output_path' =
              (case output_path of
                 None \<Rightarrow> fst (splitext input_path) @ ''_2pp.pdf''
               | Some p \<Rightarrow> p);
            page_size = (if upper page_format = ''A4'' then A4 else letter)
        in create_2_pages_per_sheet w input_path output_path'
             (SizeTuple (fst page_size) (snd page_size)) 12 False)"

section \<open>The merge engine: \<^verbatim>\<open>merge_pdfs\<close>\<close>

definition add_page :: "writer \<Rightarrow> page \<Rightarrow> writer" where
  \<comment> \<open>Modelled from the spec: the library appends a page to the accumulating output.\<close>
  "add_page wr p = wr\<lparr>w_pages := w_pages wr @ [p]\<rparr>"

definition clone_reader_document_root ::
  "world \<Rightarrow> writer \<Rightarrow> document \<Rightarrow> error option \<times> writer" where
  \<comment> \<open>Modelled from the spec: the library call of line 61, the spec's attempt to clone a
      source's outline into the output. The call clones the reader's whole document root
      over the writer's, page tree and outline alike, so that the writer then holds the
      reader's document and no longer what was appended to it. The call may raise; the
      result is the exception, if any, and the writer as the call leaves it.\<close>
  "clone_reader_document_root w wr reader =
     (case clone_raises w wr reader of
        None \<Rightarrow> (None, \<lparr>w_pages = pages reader, w_outline = outline reader\<rparr>)
      | Some (e, wr') \<Rightarrow> (Some e, wr'))"

definition py_index :: "'a list \<Rightarrow> int \<Rightarrow> error + 'a" where
  \<comment> \<open>\<^verbatim>\<open>reader.pages[page_num]\<close>: an index below zero is taken from the back of the
      sequence, an index outside both ranges raises.\<close>
  "py_index xs i =
     (if 0 \<le> i \<and> i < int (length xs) then Inr (xs ! nat i)
      else if i < 0 \<and> - int (length xs) \<le> i then Inr (xs ! nat (int (length xs) + i))
      else Inl IndexError)"

definition py_range :: "int \<Rightarrow> int \<Rightarrow> int list" where
  \<comment> \<open>\<^verbatim>\<open>list(range(a, b))\<close>.\<close>
  "py_range a b = [a..b - 1]"

fun check_exist :: "world \<Rightarrow> string list \<Rightarrow> error + unit" where
  \<comment> \<open>Lines 28-30.\<close>
  "check_exist w [] = Inr ()"
| "check_exist w (pdf_path # rest) =
     (if \<not> os_path_exists w pdf_path
      then Inl (FileNotFoundError (''Input file not found: '' @ pdf_path))
      else check_exist w rest)"

definition pages_to_add :: "(int \<times> int) option \<Rightarrow> nat \<Rightarrow> int list" where
  \<comment> \<open>Lines 44-50; \<open>None\<close> is the falsy \<^verbatim>\<open>page_range\<close>.\<close>
  "pages_to_add page_range num_pages =
     (case page_range of
        Some (start_page, end_page) \<Rightarrow>
          let start_page' = max 0 (min start_page (int num_pages - 1));
              end_page' = max start_page' (min end_page (int num_pages))
          in py_range start_page' end_page'
      | None \<Rightarrow> py_range 0 (int num_pages))"

fun add_pages :: "page list \<Rightarrow> int list \<Rightarrow> writer \<Rightarrow> error + writer" where
  \<comment> \<open>Lines 53-56; the counter \<^verbatim>\<open>total_pages\<close> is only printed.\<close>
  "add_pages reader_pages [] wr = Inr wr"
| "add_pages reader_pages (page_num # rest) wr =
     (case py_index reader_pages page_num of
        Inl e \<Rightarrow> Inl e
      | Inr p \<Rightarrow> add_pages reader_pages rest (add_page wr p))"

definition preserve :: "world \<Rightarrow> bool \<Rightarrow> document \<Rightarrow> writer \<Rightarrow> writer" where
  \<comment> \<open>Lines 59-63: an exception of the clone is caught and printed as a warning; nothing
      is undone, the loop goes on with the writer as the call left it.\<close>
  "preserve w preserve_bookmarks reader wr =
     (if preserve_bookmarks \<and> outline reader \<noteq> [] then
        (case clone_reader_document_root w wr reader of
           (None, wr') \<Rightarrow> wr'
         | (Some e, wr') \<Rightarrow> wr')
      else wr)"

fun merge_loop ::
  "world \<Rightarrow> string list \<Rightarrow> bool \<Rightarrow> (int \<times> int) option \<Rightarrow> writer \<Rightarrow> error + writer" where
  \<comment> \<open>Lines 37-65.\<close>
  "merge_loop w [] preserve_bookmarks page_range wr = Inr wr"
| "merge_loop w (pdf_path # rest) preserve_bookmarks page_range wr =
     (case PdfReader w pdf_path of
        Inl e \<Rightarrow> Inl e
      | Inr reader \<Rightarrow>
          let num_pages = length (pages reader) in
          case add_pages (pages reader) (pages_to_add page_range num_pages) wr of
            Inl e \<Rightarrow> Inl e
          | Inr wr1 \<Rightarrow>
              merge_loop w rest preserve_bookmarks page_range
                (preserve w preserve_bookmarks reader wr1))"

definition merge ::
  "world \<Rightarrow> string list \<Rightarrow> string \<Rightarrow> bool \<Rightarrow> (int \<times> int) option \<Rightarrow> error + world" where
  \<comment> \<open>Lines 24-74: the body of the \<^verbatim>\<open>try\<close> block; \<open>Inl\<close> is the exception it raises.\<close>
  "merge w input_pdf_paths output_pdf_path preserve_bookmarks page_range =
     (if input_pdf_paths = [] then Inl (ValueError ''No input PDF paths provided.'')
      else
        case check_exist w input_pdf_paths of
          Inl e \<Rightarrow> Inl e
        | Inr _ \<Rightarrow>
            (case merge_loop w input_pdf_paths preserve_bookmarks page_range
                    \<lparr>w_pages = [], w_outline = []\<rparr> of
               Inl e \<Rightarrow> Inl e
             | Inr wr \<Rightarrow>
                 write_pdf w output_pdf_path
                   \<lparr>pages = w_pages wr, outline = w_outline wr\<rparr>))"

definition merge_pdfs ::
  "world \<Rightarrow> string list \<Rightarrow> string \<Rightarrow> bool \<Rightarrow> (int \<times> int) option \<Rightarrow> bool \<times> world" where
  \<comment> \<open>Lines 23-80: the \<^verbatim>\<open>except Exception\<close> boundary returns \<^verbatim>\<open>False\<close>.\<close>
  "merge_pdfs w input_pdf_paths output_pdf_path preserve_bookmarks page_range =
     (case merge w input_pdf_paths output_pdf_path preserve_bookmarks page_range of
        Inl e \<Rightarrow> (False, w)
      | Inr w' \<Rightarrow> (True, w'))"

definition merge_two_pdfs ::
  "world \<Rightarrow> string \<Rightarrow> string \<Rightarrow> string \<Rightarrow> bool \<Rightarrow> bool \<times> world" where
  \<comment> \<open>Line 100.\<close>
  "merge_two_pdfs w first_pdf_path second_pdf_path output_pdf_path preserve_bookmarks =
     merge_pdfs w [first_pdf_path, second_pdf_path] output_pdf_path preserve_bookmarks None"

datatype paths_arg = PathString string | PathList "string list"

definition endswith :: "string \<Rightarrow> string \<Rightarrow> bool" where
  "endswith s suffix = (length suffix \<le> length s \<and> drop (length s - length suffix) s = suffix)"

definition os_listdir :: "world \<Rightarrow> string \<Rightarrow> string list" where
  "os_listdir w p = (case files w p of Some (Directory names) \<Rightarrow> names | _ \<Rightarrow> [])"

definition os_path_join :: "string \<Rightarrow> string \<Rightarrow> string" where
  \<comment> \<open>\<^verbatim>\<open>os.path.join\<close> of the standard library on POSIX paths, two components.\<close>
  "os_path_join a b =
     (if b \<noteq> [] \<and> hd b = CHR ''/'' then b
      else if a = [] \<or> last a = CHR ''/'' then a @ b
      else a @ ''/'' @ b)"

definition resolve_input_paths :: "world \<Rightarrow> paths_arg \<Rightarrow> error + string list" where
  \<comment> \<open>Lines 113-119.\<close>
  "resolve_input_paths w input_paths =
     (case input_paths of
        PathString s \<Rightarrow>
          (if os_path_isdir w s then
             let pdf_files = filter (\<lambda>f. endswith (lower f) ''.pdf'') (os_listdir w s)
             in Inr (map (os_path_join s) (sort pdf_files))
           else Inl (ValueError ''Single string input must be a directory path''))
      | PathList ps \<Rightarrow> Inr ps)"

definition convert_merge_pdfs ::
  "world \<Rightarrow> paths_arg \<Rightarrow> string option \<Rightarrow> bool \<Rightarrow> (error + bool) \<times> world" where
  \<comment> \<open>Lines 113-137. The function has no \<^verbatim>\<open>try\<close> of its own: \<open>Inl\<close> is an exception that
      leaves it, \<open>Inr\<close> the boolean it returns.\<close>
  "convert_merge_pdfs w input_paths output_path preserve_bookmarks =
     (case resolve_input_paths w input_paths of
        Inl e \<Rightarrow> (Inl e, w)
      | Inr paths \<Rightarrow>
          if length paths < 2 then (Inr False, w)
          else
            let output_path' =
                  (case output_path of
                     None \<Rightarrow> fst (splitext (paths ! 0)) @ ''_merged.pdf''
                   | Some p \<Rightarrow> p);
                (ok, w') = merge_pdfs w paths output_path' preserve_bookmarks None
            in (Inr ok, w'))"

section \<open>Specification-side definitions\<close>

definition spec_scale :: "real \<Rightarrow> real \<Rightarrow> real \<Rightarrow> real \<Rightarrow> bool \<Rightarrow> real" where
  \<comment> \<open>The fit scale as the specification words it: the smaller of the two ratios, clamped
      to at most 1 when \<open>scaleUp\<close> is false.\<close>
  "spec_scale aw ah vw vh su =
     (if su then min (aw / vw) (ah / vh) else min (min (aw / vw) (ah / vh)) 1)"

definition placeable :: "page \<Rightarrow> bool" where
  \<comment> \<open>The pages on which lines 64-120 raise nothing: a quarter-turn rotation and a media
      box with non-zero sides.\<close>
  "placeable p \<longleftrightarrow>
     page_rotation p \<in> {0, 90, 180, 270} \<and> mediabox_width p \<noteq> 0 \<and> mediabox_height p \<noteq> 0"

definition clamp_to :: "int \<Rightarrow> int \<Rightarrow> int \<Rightarrow> int" where
  \<comment> \<open>Clamping a value to the interval \<open>[lo, hi]\<close>, as the specification words the page
      range rule.\<close>
  "clamp_to lo hi x = (if x < lo then lo else if hi < x then hi else x)"

definition sheet_layout :: "real \<Rightarrow> real \<Rightarrow> real \<Rightarrow> bool \<Rightarrow> layout" where
  \<comment> \<open>The sheet geometry of lines 37-49 for a page size \<open>(page_w, page_h)\<close>.\<close>
  "sheet_layout page_w page_h margin_pt su =
     \<lparr>output_width = max page_w page_h, output_height = min page_w page_h,
      available_width = max page_w page_h / 2 - 2 * margin_pt,
      available_height = min page_w page_h - 2 * margin_pt, scale_up = su\<rparr>"

definition margins_fit :: "real \<Rightarrow> real \<Rightarrow> real \<Rightarrow> bool" where
  \<comment> \<open>The margins that pass the check of line 50.\<close>
  "margins_fit page_w page_h margin_pt \<longleftrightarrow>
     0 < max page_w page_h / 2 - 2 * margin_pt \<and> 0 < min page_w page_h - 2 * margin_pt"

definition placing_error :: "error \<Rightarrow> bool" where
  \<comment> \<open>The two exceptions that placing a source page can raise.\<close>
  "placing_error e \<longleftrightarrow>
     e = ZeroDivisionError \<or> e = ValueError ''Rotation must be a multiple of 90 degrees.''"

definition spec_selected :: "(int \<times> int) option \<Rightarrow> document \<Rightarrow> page list" where
  \<comment> \<open>The pages of a source that the specification selects: the whole document without a
      page range, and with \<open>(start, end)\<close> the half-open range from \<open>start\<close> clamped to
      \<open>[0, pageCount - 1]\<close> up to \<open>end\<close> clamped to \<open>[max start 0, pageCount]\<close>.\<close>
  "spec_selected page_range d =
     (case page_range of
        None \<Rightarrow> pages d
      | Some (start, end) \<Rightarrow>
          let page_count = int (length (pages d));
              start' = clamp_to 0 (page_count - 1) start;
              end' = clamp_to (max start' 0) page_count end
          in take (nat (end' - start')) (drop (nat start') (pages d)))"

section \<open>Example inputs\<close>

definition page_a :: page where
  "page_a = \<lparr>mediabox_width = 100, mediabox_height = 200, page_rotate = RotateAbsent,
             page_content = SourceContent ''A0''\<rparr>"

definition page_b :: page where
  "page_b = \<lparr>mediabox_width = 400, mediabox_height = 200, page_rotate = RotateInt 90,
             page_content = SourceContent ''A1''\<rparr>"

definition page_c :: page where
  "page_c = \<lparr>mediabox_width = 760, mediabox_height = 580, page_rotate = RotateInt (- 90),
             page_content = SourceContent ''A2''\<rparr>"

definition page_d :: page where
  "page_d = \<lparr>mediabox_width = 595, mediabox_height = 842, page_rotate = RotateMalformed,
             page_content = SourceContent ''B0''\<rparr>"

definition page_e :: page where
  "page_e = \<lparr>mediabox_width = 595, mediabox_height = 842, page_rotate = RotateInt 180,
             page_content = SourceContent ''B1''\<rparr>"

definition doc_A :: document where
  "doc_A = \<lparr>pages = [page_a, page_b, page_c], outline = [''Chapter 1'']\<rparr>"

definition doc_B :: document where
  "doc_B = \<lparr>pages = [page_d, page_e], outline = [''Annex'']\<rparr>"

definition doc_empty :: document where
  "doc_empty = \<lparr>pages = [], outline = []\<rparr>"

definition example_world :: world where
  "example_world =
     \<lparr>files = [''A.pdf'' \<mapsto> PdfFile doc_A, ''B.pdf'' \<mapsto> PdfFile doc_B,
               ''empty.pdf'' \<mapsto> PdfFile doc_empty, ''dir'' \<mapsto> Directory [''A.pdf'']],
      writable = (\<lambda>p. p \<noteq> ''locked.pdf''),
      clone_raises = (\<lambda>wr reader. None)\<rparr>"

section \<open>Auxiliary facts\<close>

lemma fit_scale_ok:
  "vw \<noteq> 0 \<Longrightarrow> vh \<noteq> 0 \<Longrightarrow> fit_scale aw ah vw vh su = Inr (spec_scale aw ah vw vh su)"
  by (simp add: fit_scale_def spec_scale_def Let_def)

lemma viewed_dims_nonzero:
  "w \<noteq> 0 \<Longrightarrow> h \<noteq> 0 \<Longrightarrow> viewed_dims r w h = (vw, vh) \<Longrightarrow> vw \<noteq> 0 \<and> vh \<noteq> 0"
  by (auto simp: viewed_dims_def split: if_splits)

lemma flatten_ok:
  "r \<in> {0, 90, 180, 270} \<Longrightarrow> \<exists>pre. flatten r w h [] = Inr pre"
  by (auto simp: flatten_def Let_def)


lemma set_py_range: "set (py_range a b) = {a..<b}"
  by (auto simp: py_range_def)

lemma check_exist_missing:
  "\<forall>p \<in> set pre. os_path_exists w p \<Longrightarrow> \<not> os_path_exists w q \<Longrightarrow>
   check_exist w (pre @ q # post) = Inl (FileNotFoundError (''Input file not found: '' @ q))"
  by (induction pre) simp_all

lemma fit_scale_error: "fit_scale aw ah vw vh su = Inl e \<Longrightarrow> e = ZeroDivisionError"
  by (simp add: fit_scale_def Let_def split: if_splits)

lemma flatten_error:
  "flatten r w h t = Inl e \<Longrightarrow> e = ValueError ''Rotation must be a multiple of 90 degrees.''"
  by (simp add: flatten_def Let_def split: if_splits)

lemma page_transform_error:
  assumes "page_transform L side src = Inl e"
  shows "placing_error e"
proof -
  obtain vw vh where vd:
    "viewed_dims (page_rotation src) (mediabox_width src) (mediabox_height src) = (vw, vh)"
    by (cases "viewed_dims (page_rotation src) (mediabox_width src) (mediabox_height src)")
  show ?thesis
  proof (cases "fit_scale (available_width L) (available_height L) vw vh (scale_up L)")
    case (Inl e')
    with assms vd have "e' = e" by (simp add: page_transform_def Let_def)
    with Inl show ?thesis using fit_scale_error by (auto simp: placing_error_def)
  next
    case (Inr s)
    show ?thesis
    proof (cases "flatten (page_rotation src) (mediabox_width src) (mediabox_height src) []")
      case (Inl e')
      with assms vd Inr have "e' = e" by (simp add: page_transform_def Let_def)
      with Inl show ?thesis using flatten_error by (auto simp: placing_error_def)
    next
      case (Inr t)
      with assms vd \<open>fit_scale _ _ _ _ _ = Inr s\<close> show ?thesis
        by (simp add: page_transform_def Let_def)
    qed
  qed
qed

lemma place_side_error: "place_side L ps i side np = Inl e \<Longrightarrow> placing_error e"
  by (simp add: place_side_def Let_def page_transform_error split: if_splits sum.splits)

lemma make_sheet_error:
  assumes "make_sheet L ps i = Inl e"
  shows "placing_error e"
proof (cases "place_side L ps i 0 (create_blank_page (output_width L) (output_height L))")
  case (Inl e')
  with assms have "e' = e" by (simp add: make_sheet_def Let_def)
  with Inl show ?thesis by (simp add: place_side_error)
next
  case (Inr np)
  with assms have "place_side L ps i 1 np = Inl e" by (simp add: make_sheet_def Let_def)
  then show ?thesis by (rule place_side_error)
qed

lemma sheets_loop_error: "sheets_loop L ps i wr = Inl e \<Longrightarrow> placing_error e"
proof (induction L ps i wr rule: sheets_loop.induct)
  case (1 L ps i wr)
  show ?case
  proof (cases "i \<ge> length ps")
    case True
    with "1.prems" show ?thesis by (simp add: sheets_loop.simps [of L ps i wr])
  next
    case False
    show ?thesis
    proof (cases "make_sheet L ps i")
      case (Inl e')
      with False "1.prems" have "e' = e" by (simp add: sheets_loop.simps [of L ps i wr])
      with Inl show ?thesis using make_sheet_error by blast
    next
      case (Inr np)
      with False "1.prems" have "sheets_loop L ps (i + 2) (wr @ [np]) = Inl e"
        by (simp add: sheets_loop.simps [of L ps i wr])
      with "1.IH" False Inr show ?thesis by simp
    qed
  qed
qed

lemma write_pdf_error: "write_pdf w p d = Inl e \<Longrightarrow> e = OSError"
  by (simp add: write_pdf_def split: if_splits)

lemma PdfReader_error:
  "PdfReader w p = Inl e \<Longrightarrow> e = FileNotFoundError p \<or> e = OSError \<or> e = PdfReadError"
  by (auto simp: PdfReader_def split: option.splits fs_entry.splits)

lemma impose_margins:
  assumes "resolve_page_size page_size = Inr (pw, ph)" and "PdfReader w input = Inr reader"
    and "\<not> margins_fit pw ph m"
  shows "impose w input out page_size m su
           = Inl (ValueError ''Margins too large for chosen page size.'')"
proof -
  have c: "(max pw ph / 2 - 2 * m \<le> 0 \<or> min pw ph - 2 * m \<le> 0) = True"
    using assms(3) by (auto simp: margins_fit_def)
  show ?thesis
    unfolding impose_def Let_def
    by (simp only: assms(1,2) c sum.case prod.case if_True)
qed

lemma impose_sheets:
  assumes "resolve_page_size page_size = Inr (pw, ph)" and "PdfReader w input = Inr reader"
    and "margins_fit pw ph m"
  shows "impose w input out page_size m su =
           (case sheets_loop (sheet_layout pw ph m su) (pages reader) 0 [] of
              Inl e \<Rightarrow> Inl e
            | Inr wr \<Rightarrow> write_pdf w out \<lparr>pages = wr, outline = []\<rparr>)"
proof -
  have c: "(max pw ph / 2 - 2 * m \<le> 0 \<or> min pw ph - 2 * m \<le> 0) = False"
    using assms(3) by (auto simp: margins_fit_def)
  show ?thesis
    unfolding impose_def Let_def sheet_layout_def
    by (simp only: assms(1,2) c sum.case prod.case if_False)
qed

lemma impose_reader_error:
  assumes "resolve_page_size page_size = Inr (pw, ph)" and "PdfReader w input = Inl e"
  shows "impose w input out page_size m su = Inl e"
  unfolding impose_def Let_def by (simp only: assms sum.case prod.case)

lemma impose_tuple_error:
  assumes "impose w input out (SizeTuple a b) m su = Inl e"
  shows "e \<noteq> ValueError ''Unknown page_size string. Use 'A4' or provide (w,h) in points.''"
proof -
  have r: "resolve_page_size (SizeTuple a b) = Inr (a, b)"
    by (simp add: resolve_page_size_def)
  show ?thesis
  proof (cases "PdfReader w input")
    case (Inl e')
    have "impose w input out (SizeTuple a b) m su = Inl e'"
      using r Inl by (rule impose_reader_error)
    with assms have "e' = e" by simp
    with Inl show ?thesis using PdfReader_error by blast
  next
    case (Inr reader)
    show ?thesis
    proof (cases "margins_fit a b m")
      case False
      have "impose w input out (SizeTuple a b) m su
              = Inl (ValueError ''Margins too large for chosen page size.'')"
        using r Inr False by (rule impose_margins)
      with assms have "e = ValueError ''Margins too large for chosen page size.''" by simp
      then show ?thesis by simp
    next
      case True
      note unf = impose_sheets [OF r Inr True, of out su]
      show ?thesis
      proof (cases "sheets_loop (sheet_layout a b m su) (pages reader) 0 []")
        case (Inl e')
        with assms unf have "e' = e" by simp
        with Inl have "placing_error e" using sheets_loop_error by blast
        then show ?thesis by (auto simp: placing_error_def)
      next
        case (Inr wr)
        with assms unf
        have "write_pdf w out \<lparr>pages = wr, outline = []\<rparr> = Inl e"
          by simp
        then have "e = OSError" by (rule write_pdf_error)
        then show ?thesis by simp
      qed
    qed
  qed
qed

lemma ceiling_half: "\<lceil>real n / 2\<rceil> = int ((n + 1) div 2)"
proof -
  have "real n / 2 = of_int (int n) / of_int 2" by simp
  then have "\<lceil>real n / 2\<rceil> = - (- int n div 2)"
    by (simp only: ceiling_divide_eq_div)
  also have "\<dots> = int ((n + 1) div 2)" by presburger
  finally show ?thesis .
qed

lemma placeable_transform:
  assumes "placeable p"
  shows "\<exists>t. page_transform L side p = Inr t"
proof -
  obtain vw vh where vd:
    "viewed_dims (page_rotation p) (mediabox_width p) (mediabox_height p) = (vw, vh)"
    by (cases "viewed_dims (page_rotation p) (mediabox_width p) (mediabox_height p)")
  have nz: "mediabox_width p \<noteq> 0" "mediabox_height p \<noteq> 0"
    using assms by (simp_all add: placeable_def)
  have "vw \<noteq> 0 \<and> vh \<noteq> 0"
    using nz vd by (rule viewed_dims_nonzero)
  then have fs: "fit_scale (available_width L) (available_height L) vw vh (scale_up L)
              = Inr (spec_scale (available_width L) (available_height L) vw vh (scale_up L))"
    by (simp add: fit_scale_ok)
  obtain pre where pre:
    "flatten (page_rotation p) (mediabox_width p) (mediabox_height p) [] = Inr pre"
  proof -
    have "page_rotation p \<in> {0, 90, 180, 270}" using assms by (simp add: placeable_def)
    then show ?thesis using that flatten_ok by blast
  qed
  show ?thesis
    using vd fs pre by (simp add: page_transform_def Let_def)
qed

lemma place_side_absent:
  "length ps \<le> i + side \<Longrightarrow> place_side L ps i side np = Inr np"
  by (simp add: place_side_def Let_def)

lemma place_side_present:
  assumes "i + side < length ps" and "page_transform L side (ps ! (i + side)) = Inr t"
  shows "place_side L ps i side np = Inr (merge_transformed_page np (ps ! (i + side)) t)"
  using assms by (simp add: place_side_def Let_def)

lemma make_sheet_single:
  assumes "Suc i = length ps" and "page_transform L 0 (ps ! i) = Inr t"
  shows "make_sheet L ps i =
           Inr (merge_transformed_page
                  (create_blank_page (output_width L) (output_height L)) (ps ! i) t)"
proof -
  have a: "place_side L ps i 0 (create_blank_page (output_width L) (output_height L))
         = Inr (merge_transformed_page
                  (create_blank_page (output_width L) (output_height L)) (ps ! i) t)"
    using place_side_present [of i 0 ps L t] assms by simp
  have b: "place_side L ps i 1 np = Inr np" for np
    using assms(1) by (simp add: place_side_absent)
  show ?thesis
    unfolding make_sheet_def Let_def by (simp only: a b sum.case)
qed

lemma make_sheet_ok:
  assumes "i < length ps" and "\<forall>p \<in> set ps. placeable p"
  shows "\<exists>s. make_sheet L ps i = Inr s"
proof -
  let ?blank = "create_blank_page (output_width L) (output_height L)"
  have "placeable (ps ! i)" using assms by simp
  then obtain t where t: "page_transform L 0 (ps ! i) = Inr t"
    using placeable_transform by blast
  have a: "place_side L ps i 0 ?blank = Inr (merge_transformed_page ?blank (ps ! i) t)"
    using place_side_present [of i 0 ps L t] assms(1) t by simp
  have b: "\<exists>s. place_side L ps i 1 np = Inr s" for np
  proof (cases "i + 1 < length ps")
    case True
    then have "placeable (ps ! (i + 1))" using assms(2) by simp
    then obtain t1 where "page_transform L 1 (ps ! (i + 1)) = Inr t1"
      using placeable_transform by blast
    with True show ?thesis using place_side_present [of i 1 ps L t1 np] by blast
  next
    case False
    then have "length ps \<le> i + 1" by simp
    then show ?thesis using place_side_absent by blast
  qed
  show ?thesis
    unfolding make_sheet_def Let_def using b by (simp only: a sum.case)
qed

lemma sheets_loop_ok:
  assumes "\<forall>p \<in> set ps. placeable p"
  shows "\<exists>out. sheets_loop L ps i wr = Inr (wr @ out) \<and>
           length out = (length ps - i + 1) div 2 \<and>
           (i < length ps \<and> odd (length ps - i) \<longrightarrow>
              (\<exists>t. page_transform L 0 (last ps) = Inr t \<and>
                   last out = merge_transformed_page
                     (create_blank_page (output_width L) (output_height L)) (last ps) t))"
  using assms
proof (induction L ps i wr rule: sheets_loop.induct)
  case (1 L ps i wr)
  show ?case
  proof (cases "length ps \<le> i")
    case True
    then show ?thesis by (simp add: sheets_loop.simps [of L ps i wr])
  next
    case False
    then have lt: "i < length ps" by simp
    obtain s where s: "make_sheet L ps i = Inr s"
      using make_sheet_ok [OF lt "1.prems"] by blast
    from "1.IH" [OF False s "1.prems"] obtain out where
      rec: "sheets_loop L ps (i + 2) ((wr @ [s])) = Inr ((wr @ [s]) @ out)" and
      len: "length out = (length ps - (i + 2) + 1) div 2" and
      lst: "i + 2 < length ps \<and> odd (length ps - (i + 2)) \<longrightarrow>
              (\<exists>t. page_transform L 0 (last ps) = Inr t \<and>
                   last out = merge_transformed_page
                     (create_blank_page (output_width L) (output_height L)) (last ps) t)"
      by blast
    have res: "sheets_loop L ps i wr = Inr (wr @ (s # out))"
      using False s rec by (simp add: sheets_loop.simps [of L ps i wr])
    have len': "length (s # out) = (length ps - i + 1) div 2"
      using lt len by simp presburger
    have lst': "\<exists>t. page_transform L 0 (last ps) = Inr t \<and>
                   last (s # out) = merge_transformed_page
                     (create_blank_page (output_width L) (output_height L)) (last ps) t"
      if odd: "odd (length ps - i)"
    proof (cases "i + 2 < length ps")
      case True
      then have "odd (length ps - (i + 2))" using odd by presburger
      with True lst obtain t where t: "page_transform L 0 (last ps) = Inr t"
        "last out = merge_transformed_page
                     (create_blank_page (output_width L) (output_height L)) (last ps) t"
        by blast
      from True len have "out \<noteq> []" by auto
      with t show ?thesis by auto
    next
      case False
      with odd lt have e: "Suc i = length ps" by presburger
      have "ps \<noteq> []" using lt by auto
      then have "last ps = ps ! (length ps - 1)" by (rule last_conv_nth)
      moreover have "length ps - 1 = i" using e by arith
      ultimately have lp: "last ps = ps ! i" by simp
      have "placeable (ps ! i)" using lt "1.prems" by simp
      then obtain t where t: "page_transform L 0 (ps ! i) = Inr t"
        using placeable_transform by blast
      have o: "out = []" using len e by simp
      show ?thesis using make_sheet_single [OF e t] s t lp o by simp
    qed
    show ?thesis using res len' lst' by blast
  qed
qed

lemma PdfReader_file: "files w p = Some (PdfFile d) \<Longrightarrow> PdfReader w p = Inr d"
  by (simp add: PdfReader_def)

lemma write_pdf_ok:
  "writable w p \<Longrightarrow> \<not> os_path_isdir w p \<Longrightarrow>
   write_pdf w p d = Inr (w\<lparr>files := (files w)(p \<mapsto> PdfFile d)\<rparr>)"
  by (simp add: write_pdf_def)

lemma py_range_empty: "b \<le> a \<Longrightarrow> py_range a b = []"
  by (simp add: py_range_def)

lemma py_range_step: "a < b \<Longrightarrow> py_range a b = a # py_range (a + 1) b"
  by (simp add: py_range_def upto_rec1)

lemma py_index_in_range:
  "0 \<le> i \<Longrightarrow> i < int (length xs) \<Longrightarrow> py_index xs i = Inr (xs ! nat i)"
  by (simp add: py_index_def)

lemma add_pages_range:
  "0 \<le> a \<Longrightarrow> b \<le> int (length ps) \<Longrightarrow>
   add_pages ps (py_range a b) wr
     = Inr (wr\<lparr>w_pages := w_pages wr @ take (nat (b - a)) (drop (nat a) ps)\<rparr>)"
proof (induction "nat (b - a)" arbitrary: a wr)
  case 0
  then have "b \<le> a" by simp
  then show ?case by (simp add: py_range_empty)
next
  case (Suc k)
  then have lt: "a < b" by linarith
  have k: "k = nat (b - (a + 1))" using Suc.hyps(2) by linarith
  have idx: "py_index ps a = Inr (ps ! nat a)"
    using Suc.prems lt by (simp add: py_index_in_range)
  have na: "nat a < length ps" using Suc.prems lt by linarith
  have rec: "add_pages ps (py_range (a + 1) b) (add_page wr (ps ! nat a))
      = Inr ((add_page wr (ps ! nat a))
              \<lparr>w_pages := w_pages (add_page wr (ps ! nat a))
                   @ take (nat (b - (a + 1))) (drop (nat (a + 1)) ps)\<rparr>)"
    using Suc.hyps(1) [OF k, of "add_page wr (ps ! nat a)"] Suc.prems by simp
  have nat1: "nat (a + 1) = Suc (nat a)" using Suc.prems(1) by simp
  have tk: "take (nat (b - a)) (drop (nat a) ps)
          = ps ! nat a # take (nat (b - (a + 1))) (drop (nat (a + 1)) ps)"
  proof -
    have "drop (nat a) ps = ps ! nat a # drop (Suc (nat a)) ps"
      using na by (simp add: Cons_nth_drop_Suc)
    moreover have "nat (b - a) = Suc (nat (b - (a + 1)))" using Suc.hyps(2) k by simp
    ultimately show ?thesis by (simp add: nat1)
  qed
  have "add_pages ps (py_range a b) wr
          = add_pages ps (py_range (a + 1) b) (add_page wr (ps ! nat a))"
    by (simp add: py_range_step [OF lt] idx)
  then show ?case
    using rec tk by (simp add: add_page_def)
qed

lemma add_pages_all:
  "add_pages ps (pages_to_add None (length ps)) wr = Inr (wr\<lparr>w_pages := w_pages wr @ ps\<rparr>)"
  using add_pages_range [of 0 "int (length ps)" ps wr] by (simp add: pages_to_add_def)

lemma check_exist_all:
  "\<forall>p \<in> set paths. os_path_exists w p \<Longrightarrow> check_exist w paths = Inr ()"
  by (induction paths) simp_all

lemma pages_to_add_clamped:
  assumes "1 \<le> n"
  shows "pages_to_add (Some (start, end)) n =
           py_range (clamp_to 0 (int n - 1) start)
             (clamp_to (max (clamp_to 0 (int n - 1) start) 0) (int n) end)"
    and "0 \<le> clamp_to 0 (int n - 1) start"
    and "clamp_to 0 (int n - 1) start \<le> int n - 1"
    and "clamp_to 0 (int n - 1) start
           \<le> clamp_to (max (clamp_to 0 (int n - 1) start) 0) (int n) end"
    and "clamp_to (max (clamp_to 0 (int n - 1) start) 0) (int n) end \<le> int n"
proof -
  have s: "max 0 (min start (int n - 1)) = clamp_to 0 (int n - 1) start"
    using assms by (simp add: clamp_to_def max_def min_def)
  show s0: "0 \<le> clamp_to 0 (int n - 1) start" "clamp_to 0 (int n - 1) start \<le> int n - 1"
    using assms by (simp_all add: clamp_to_def)
  have e: "max (clamp_to 0 (int n - 1) start) (min end (int n))
         = clamp_to (max (clamp_to 0 (int n - 1) start) 0) (int n) end"
    using s0 by (simp add: clamp_to_def [of _ _ "end"] max_def min_def)
  show "clamp_to 0 (int n - 1) start
          \<le> clamp_to (max (clamp_to 0 (int n - 1) start) 0) (int n) end"
       "clamp_to (max (clamp_to 0 (int n - 1) start) 0) (int n) end \<le> int n"
    using s0 by (simp_all add: clamp_to_def [of _ _ "end"] max_def)
  show "pages_to_add (Some (start, end)) n =
           py_range (clamp_to 0 (int n - 1) start)
             (clamp_to (max (clamp_to 0 (int n - 1) start) 0) (int n) end)"
    by (simp add: pages_to_add_def Let_def s e)
qed

lemma add_pages_selected:
  "add_pages (pages d) (pages_to_add page_range (length (pages d))) wr
     = Inr (wr\<lparr>w_pages := w_pages wr @ spec_selected page_range d\<rparr>)"
proof (cases page_range)
  case None
  then show ?thesis by (simp add: add_pages_all spec_selected_def)
next
  case (Some r)
  obtain start "end" where r: "r = (start, end)" by (cases r)
  show ?thesis
  proof (cases "pages d = []")
    case True
    then show ?thesis
      by (simp add: Some r pages_to_add_def py_range_def spec_selected_def Let_def)
  next
    case False
    then have n: "1 \<le> length (pages d)" by (cases "pages d") simp_all
    note c1 = pages_to_add_clamped(1) [OF n, of start "end"]
    note c2 = pages_to_add_clamped(2) [OF n, of start]
    note c5 = pages_to_add_clamped(5) [OF n, of start "end"]
    show ?thesis
      unfolding Some r c1
      using add_pages_range [OF c2 c5, of wr]
      by (simp add: spec_selected_def Let_def)
  qed
qed

lemma preserve_skip: "\<not> pb \<or> outline d = [] \<Longrightarrow> preserve w pb d wr = wr"
  by (auto simp: preserve_def)

lemma merge_loop_step:
  assumes "files w p = Some (PdfFile d)"
  shows "merge_loop w (p # rest) pb page_range wr =
           merge_loop w rest pb page_range
             (preserve w pb d (wr\<lparr>w_pages := w_pages wr @ spec_selected page_range d\<rparr>))"
  using PdfReader_file [OF assms] by (simp add: add_pages_selected Let_def)

lemma merge_loop_selected:
  "map (files w) paths = map (\<lambda>d. Some (PdfFile d)) docs \<Longrightarrow>
   \<not> pb \<or> (\<forall>d \<in> set docs. outline d = []) \<Longrightarrow>
   merge_loop w paths pb page_range wr
     = Inr (wr\<lparr>w_pages := w_pages wr @ concat (map (spec_selected page_range) docs)\<rparr>)"
proof (induction paths arbitrary: docs wr)
  case Nil
  then show ?case by simp
next
  case (Cons p rest)
  then obtain d ds where docs: "docs = d # ds" and d: "files w p = Some (PdfFile d)"
    and ds: "map (files w) rest = map (\<lambda>d. Some (PdfFile d)) ds"
    by (cases docs) auto
  have skip: "\<not> pb \<or> outline d = []" using Cons.prems(2) docs by auto
  have rest: "\<not> pb \<or> (\<forall>d \<in> set ds. outline d = [])" using Cons.prems(2) docs by auto
  show ?case
    unfolding merge_loop_step [OF d] preserve_skip [OF skip]
    by (simp add: Cons.IH [OF ds rest] docs)
qed

lemma merge_selected:
  assumes "paths \<noteq> []"
    and "map (files w) paths = map (\<lambda>d. Some (PdfFile d)) docs"
    and "writable w out" and "\<not> os_path_isdir w out"
    and "\<not> pb \<or> (\<forall>d \<in> set docs. outline d = [])"
  shows "merge_pdfs w paths out pb page_range
           = (True, w\<lparr>files := (files w)(out \<mapsto>
                PdfFile \<lparr>pages = concat (map (spec_selected page_range) docs),
                         outline = []\<rparr>)\<rparr>)"
proof -
  have ex: "\<forall>p \<in> set paths. os_path_exists w p"
  proof
    fix p assume "p \<in> set paths"
    then have "files w p \<in> set (map (files w) paths)" by simp
    then have "files w p \<in> set (map (\<lambda>d. Some (PdfFile d)) docs)" using assms(2) by simp
    then show "os_path_exists w p" by (auto simp: os_path_exists_def)
  qed
  have "merge w paths out pb page_range
          = Inr (w\<lparr>files := (files w)(out \<mapsto>
                PdfFile \<lparr>pages = concat (map (spec_selected page_range) docs),
                         outline = []\<rparr>)\<rparr>)"
    using assms(1) check_exist_all [OF ex]
      merge_loop_selected [OF assms(2,5), of page_range "\<lparr>w_pages = [], w_outline = []\<rparr>"]
      write_pdf_ok [OF assms(3,4)]
    by (simp add: merge_def)
  then show ?thesis by (simp add: merge_pdfs_def)
qed


lemma add_pages_nth:
  "\<forall>i \<in> set is. 0 \<le> i \<and> i < int (length ps) \<Longrightarrow>
   add_pages ps is wr = Inr (wr\<lparr>w_pages := w_pages wr @ map (\<lambda>i. ps ! nat i) is\<rparr>)"
proof (induction "is" arbitrary: wr)
  case Nil
  then show ?case by simp
next
  case (Cons i rest)
  then have "py_index ps i = Inr (ps ! nat i)" by (simp add: py_index_in_range)
  then show ?case using Cons by (simp add: add_page_def)
qed

lemma pages_to_add_in_range:
  "\<forall>i \<in> set (pages_to_add page_range n). 0 \<le> i \<and> i < int n"
proof (cases page_range)
  case None
  then show ?thesis by (simp add: pages_to_add_def set_py_range)
next
  case (Some r)
  obtain start "end" where r: "r = (start, end)" by (cases r)
  show ?thesis
  proof (cases "n = 0")
    case True
    then show ?thesis by (simp add: Some r pages_to_add_def py_range_def Let_def)
  next
    case False
    then have n: "1 \<le> n" by simp
    show ?thesis
      unfolding Some r pages_to_add_clamped(1) [OF n, of start "end"] set_py_range
      using pages_to_add_clamped(2) [OF n, of start] pages_to_add_clamped(5) [OF n, of start "end"]
      by auto
  qed
qed

lemma spec_selected_nth:
  "spec_selected page_range d
     = map (\<lambda>i. pages d ! nat i) (pages_to_add page_range (length (pages d)))"
proof -
  let ?wr = "\<lparr>w_pages = [], w_outline = []\<rparr>"
  have "Inr (?wr\<lparr>w_pages := w_pages ?wr @ spec_selected page_range d\<rparr>)
      = (Inr (?wr\<lparr>w_pages := w_pages ?wr
            @ map (\<lambda>i. pages d ! nat i) (pages_to_add page_range (length (pages d)))\<rparr>)
          :: error + writer)"
    using add_pages_selected [of d page_range ?wr]
      add_pages_nth [OF pages_to_add_in_range, of "pages d" page_range ?wr]
    by simp
  then show ?thesis by simp
qed

section \<open>The claims\<close>

text \<open>
  C3. For a source page with viewed dimensions \<open>(vw, vh)\<close>, both non-zero (a zero side makes
  the float division raise), the scale computed at lines 83-87 and applied by the page's
  transformation is \<open>min (available_width / vw) (available_height / vh)\<close>, clamped to at
  most 1 when \<open>scale_up\<close> is false; so without \<open>scale_up\<close> the scale never exceeds 1.
\<close>

theorem scale_is_clamped_fit:
  assumes "viewed_dims (page_rotation src) (mediabox_width src) (mediabox_height src) = (vw, vh)"
    and "vw \<noteq> 0" and "vh \<noteq> 0"
  shows "let s = spec_scale (available_width L) (available_height L) vw vh (scale_up L) in
           fit_scale (available_width L) (available_height L) vw vh (scale_up L) = Inr s \<and>
           page_transform L side src =
             (case flatten (page_rotation src) (mediabox_width src) (mediabox_height src) [] of
                Inl e \<Rightarrow> Inl e
              | Inr pre \<Rightarrow>
                  Inr (pre @ [OpScale s s,
                    OpTranslate
                      (output_width L * (if side = 0 then 25 / 100 else 75 / 100) - vw * s / 2)
                      (output_height L / 2 - vh * s / 2)])) \<and>
           (\<not> scale_up L \<longrightarrow> s \<le> 1) \<and>
           (scale_up L \<longrightarrow> s = min (available_width L / vw) (available_height L / vh))"
proof -
  have fs: "fit_scale (available_width L) (available_height L) vw vh (scale_up L)
              = Inr (spec_scale (available_width L) (available_height L) vw vh (scale_up L))"
    using assms(2,3) by (rule fit_scale_ok)
  show ?thesis
    using assms(1) fs
    by (simp add: page_transform_def Let_def spec_scale_def)
qed

theorem scale_is_clamped_fit_witness:
  "page_transform
     \<lparr>output_width = 800, output_height = 600, available_width = 380,
      available_height = 580, scale_up = False\<rparr> 0
     \<lparr>mediabox_width = 580, mediabox_height = 760, page_rotate = RotateInt 90,
      page_content = SourceContent ''a''\<rparr>
   = Inr [OpRotate (- 90), OpTranslate 0 580, OpScale (1 / 2) (1 / 2), OpTranslate 10 155]"
  using scale_is_clamped_fit [of
      "\<lparr>mediabox_width = 580, mediabox_height = 760, page_rotate = RotateInt 90,
        page_content = SourceContent ''a''\<rparr>" 760 580
      "\<lparr>output_width = 800, output_height = 600, available_width = 380,
        available_height = 580, scale_up = False\<rparr>" 0]
  by (simp add: viewed_dims_def page_rotation_def spec_scale_def flatten_def Let_def)




text \<open>
  C6. With \<^verbatim>\<open>page_range = (start, end)\<close> on a document of \<open>n \<ge> 1\<close> pages, the selected
  indices are the half-open range from \<open>start\<close> clamped to \<open>[0, n - 1]\<close> up to \<open>end\<close> clamped
  to \<open>[max start' 0, n]\<close>, \<open>start'\<close> being the clamped start; on a document without pages
  nothing is selected; with no page range the whole document \<open>[0, n)\<close> is selected; and
  \<open>(1, 10)\<close> on 3 pages selects the indices 1 and 2. Every merge call uses this selection:
  for each source in turn the loop of \<^verbatim>\<open>merge_pdfs\<close> appends to the writer exactly the pages
  at the selected indices, in order, before it turns to the bookmarks; and a call that
  never reaches the clone of line 61 (bookmarks not asked for, or sources without outline)
  writes the selected pages of all sources, and nothing else.
\<close>

theorem page_range_clamped:
  "pages_to_add None n = py_range 0 (int n) \<and>
   set (pages_to_add None n) = {0..<int n} \<and>
   (1 \<le> n \<longrightarrow>
      (let start' = clamp_to 0 (int n - 1) start;
           end' = clamp_to (max start' 0) (int n) end
       in 0 \<le> start' \<and> start' \<le> int n - 1 \<and> start' \<le> end' \<and> end' \<le> int n \<and>
          pages_to_add (Some (start, end)) n = py_range start' end' \<and>
          set (pages_to_add (Some (start, end)) n) = {start'..<end'})) \<and>
   (n = 0 \<longrightarrow> pages_to_add (Some (start, end)) n = []) \<and>
   pages_to_add (Some (1, 10)) 3 = [1, 2] \<and>
   spec_selected page_range d
     = map (\<lambda>i. pages d ! nat i) (pages_to_add page_range (length (pages d))) \<and>
   (files w p = Some (PdfFile d) \<longrightarrow>
      merge_loop w (p # rest) preserve_bookmarks page_range wr =
        merge_loop w rest preserve_bookmarks page_range
          (preserve w preserve_bookmarks d
             (wr\<lparr>w_pages := w_pages wr @ spec_selected page_range d\<rparr>))) \<and>
   (input_pdf_paths \<noteq> [] \<and>
    map (files w) input_pdf_paths = map (\<lambda>d. Some (PdfFile d)) docs \<and>
    writable w output_pdf_path \<and> \<not> os_path_isdir w output_pdf_path \<and>
    (\<not> preserve_bookmarks \<or> (\<forall>d \<in> set docs. outline d = [])) \<longrightarrow>
      merge_pdfs w input_pdf_paths output_pdf_path preserve_bookmarks page_range
        = (True, w\<lparr>files := (files w)(output_pdf_path \<mapsto>
             PdfFile \<lparr>pages = concat (map (spec_selected page_range) docs),
                      outline = []\<rparr>)\<rparr>))"
proof -
  have a: "pages_to_add None n = py_range 0 (int n)"
    by (simp add: pages_to_add_def)
  have b: "set (pages_to_add None n) = {0..<int n}"
    by (simp add: pages_to_add_def set_py_range)
  have c: "1 \<le> n \<longrightarrow>
      (let start' = clamp_to 0 (int n - 1) start;
           end' = clamp_to (max start' 0) (int n) end
       in 0 \<le> start' \<and> start' \<le> int n - 1 \<and> start' \<le> end' \<and> end' \<le> int n \<and>
          pages_to_add (Some (start, end)) n = py_range start' end' \<and>
          set (pages_to_add (Some (start, end)) n) = {start'..<end'})"
  proof
    assume n: "1 \<le> n"
    note c1 = pages_to_add_clamped(1) [OF n, of start "end"]
    note c2 = pages_to_add_clamped(2) [OF n, of start]
    note c3 = pages_to_add_clamped(3) [OF n, of start]
    note c4 = pages_to_add_clamped(4) [OF n, of start "end"]
    note c5 = pages_to_add_clamped(5) [OF n, of start "end"]
    show "let start' = clamp_to 0 (int n - 1) start;
           end' = clamp_to (max start' 0) (int n) end
       in 0 \<le> start' \<and> start' \<le> int n - 1 \<and> start' \<le> end' \<and> end' \<le> int n \<and>
          pages_to_add (Some (start, end)) n = py_range start' end' \<and>
          set (pages_to_add (Some (start, end)) n) = {start'..<end'}"
      unfolding Let_def c1 set_py_range using c2 c3 c4 c5 by (intro conjI refl)
  qed
  have d: "n = 0 \<longrightarrow> pages_to_add (Some (start, end)) n = []"
    by (simp add: pages_to_add_def py_range_def Let_def)
  have ex: "pages_to_add (Some (1, 10)) 3 = [1, 2]"
    by (simp add: pages_to_add_def py_range_def Let_def upto.simps)
  have sel: "spec_selected page_range d
     = map (\<lambda>i. pages d ! nat i) (pages_to_add page_range (length (pages d)))"
    by (rule spec_selected_nth)
  have step: "files w p = Some (PdfFile d) \<longrightarrow>
      merge_loop w (p # rest) preserve_bookmarks page_range wr =
        merge_loop w rest preserve_bookmarks page_range
          (preserve w preserve_bookmarks d
             (wr\<lparr>w_pages := w_pages wr @ spec_selected page_range d\<rparr>))"
  proof
    assume "files w p = Some (PdfFile d)"
    then show "merge_loop w (p # rest) preserve_bookmarks page_range wr =
        merge_loop w rest preserve_bookmarks page_range
          (preserve w preserve_bookmarks d
             (wr\<lparr>w_pages := w_pages wr @ spec_selected page_range d\<rparr>))"
      by (rule merge_loop_step)
  qed
  have whole: "input_pdf_paths \<noteq> [] \<and>
    map (files w) input_pdf_paths = map (\<lambda>d. Some (PdfFile d)) docs \<and>
    writable w output_pdf_path \<and> \<not> os_path_isdir w output_pdf_path \<and>
    (\<not> preserve_bookmarks \<or> (\<forall>d \<in> set docs. outline d = [])) \<longrightarrow>
      merge_pdfs w input_pdf_paths output_pdf_path preserve_bookmarks page_range
        = (True, w\<lparr>files := (files w)(output_pdf_path \<mapsto>
             PdfFile \<lparr>pages = concat (map (spec_selected page_range) docs),
                      outline = []\<rparr>)\<rparr>)"
  proof
    assume h: "input_pdf_paths \<noteq> [] \<and>
      map (files w) input_pdf_paths = map (\<lambda>d. Some (PdfFile d)) docs \<and>
      writable w output_pdf_path \<and> \<not> os_path_isdir w output_pdf_path \<and>
      (\<not> preserve_bookmarks \<or> (\<forall>d \<in> set docs. outline d = []))"
    then have h1: "input_pdf_paths \<noteq> []"
      and h2: "map (files w) input_pdf_paths = map (\<lambda>d. Some (PdfFile d)) docs"
      and h3: "writable w output_pdf_path" and h4: "\<not> os_path_isdir w output_pdf_path"
      and h5: "\<not> preserve_bookmarks \<or> (\<forall>d \<in> set docs. outline d = [])"
      by simp_all
    show "merge_pdfs w input_pdf_paths output_pdf_path preserve_bookmarks page_range
        = (True, w\<lparr>files := (files w)(output_pdf_path \<mapsto>
             PdfFile \<lparr>pages = concat (map (spec_selected page_range) docs),
                      outline = []\<rparr>)\<rparr>)"
      using h1 h2 h3 h4 h5 by (rule merge_selected)
  qed
  from a b c d ex sel step whole show ?thesis by (intro conjI)
qed

theorem page_range_clamped_witness:
  "pages_to_add (Some (5, 2)) 3 = [] \<and> pages_to_add (Some (- 4, 2)) 3 = [0, 1] \<and>
   length (pages_to_add (Some (1, 10)) 3) = 2 \<and>
   merge_pdfs example_world [''A.pdf''] ''out.pdf'' False (Some (1, 10))
     = (True, example_world\<lparr>files := (files example_world)(''out.pdf'' \<mapsto>
          PdfFile \<lparr>pages = [page_b, page_c], outline = []\<rparr>)\<rparr>)"
proof -
  note t1 = page_range_clamped [of 3 1 10 "Some (1, 10)" doc_A example_world "''A.pdf''" "[]"
      False "\<lparr>w_pages = [], w_outline = []\<rparr>" "[''A.pdf'']" "[doc_A]" "''out.pdf''"]
  note t2 = page_range_clamped [of 3 5 2 "Some (1, 10)" doc_A example_world "''A.pdf''" "[]"
      False "\<lparr>w_pages = [], w_outline = []\<rparr>" "[''A.pdf'']" "[doc_A]" "''out.pdf''"]
  note t3 = page_range_clamped [of 3 "- 4" 2 "Some (1, 10)" doc_A example_world "''A.pdf''" "[]"
      False "\<lparr>w_pages = [], w_outline = []\<rparr>" "[''A.pdf'']" "[doc_A]" "''out.pdf''"]
  note whole = conjunct2 [OF conjunct2 [OF conjunct2 [OF conjunct2 [OF conjunct2
      [OF conjunct2 [OF conjunct2 [OF t1]]]]]]]
  have h: "[''A.pdf''] \<noteq> [] \<and>
      map (files example_world) [''A.pdf''] = map (\<lambda>d. Some (PdfFile d)) [doc_A] \<and>
      writable example_world ''out.pdf'' \<and> \<not> os_path_isdir example_world ''out.pdf'' \<and>
      (\<not> False \<or> (\<forall>d \<in> set [doc_A]. outline d = []))"
    by (simp add: example_world_def os_path_isdir_def)
  have s: "concat (map (spec_selected (Some (1, 10))) [doc_A]) = [page_b, page_c]"
    by (simp add: spec_selected_def clamp_to_def doc_A_def Let_def)
  have m: "merge_pdfs example_world [''A.pdf''] ''out.pdf'' False (Some (1, 10))
     = (True, example_world\<lparr>files := (files example_world)(''out.pdf'' \<mapsto>
          PdfFile \<lparr>pages = [page_b, page_c], outline = []\<rparr>)\<rparr>)"
    using whole [THEN mp, OF h] unfolding s .
  have p1: "pages_to_add (Some (5, 2)) 3 = []"
    using conjunct1 [OF conjunct2 [OF conjunct2 [OF t2]]]
    by (simp add: clamp_to_def py_range_def Let_def)
  have p2: "pages_to_add (Some (- 4, 2)) 3 = [0, 1]"
    using conjunct1 [OF conjunct2 [OF conjunct2 [OF t3]]]
    by (simp add: clamp_to_def py_range_def Let_def upto.simps)
  have p3: "length (pages_to_add (Some (1, 10)) 3) = 2"
    using conjunct1 [OF conjunct2 [OF conjunct2 [OF t1]]]
    by (simp add: clamp_to_def py_range_def Let_def upto.simps)
  show ?thesis using p1 p2 p3 m by (intro conjI)
qed

text \<open>
  C7. When the list of source paths is empty, or some listed path does not exist,
  \<^verbatim>\<open>merge_pdfs\<close> returns \<^verbatim>\<open>False\<close> and leaves the file system as it was: nothing is written,
  no output file is created. The exception behind the failure is the \<^verbatim>\<open>ValueError\<close> of
  line 25 for the empty list and otherwise the \<^verbatim>\<open>FileNotFoundError\<close> of line 30, whose
  message names a listed path that does not exist.
\<close>

theorem merge_fails_before_writing:
  assumes "input_pdf_paths = [] \<or> (\<exists>p \<in> set input_pdf_paths. \<not> os_path_exists w p)"
  shows "merge_pdfs w input_pdf_paths output_pdf_path preserve_bookmarks page_range = (False, w) \<and>
         (input_pdf_paths = [] \<longrightarrow>
            merge w input_pdf_paths output_pdf_path preserve_bookmarks page_range
              = Inl (ValueError ''No input PDF paths provided.'')) \<and>
         (input_pdf_paths \<noteq> [] \<longrightarrow>
            (\<exists>q \<in> set input_pdf_paths. \<not> os_path_exists w q \<and>
               merge w input_pdf_paths output_pdf_path preserve_bookmarks page_range
                 = Inl (FileNotFoundError (''Input file not found: '' @ q))))"
proof (cases "input_pdf_paths = []")
  case True
  then show ?thesis by (simp add: merge_pdfs_def merge_def)
next
  case False
  with assms obtain pre q post where sp: "input_pdf_paths = pre @ q # post"
    and q: "\<not> os_path_exists w q" and pre: "\<forall>p \<in> set pre. os_path_exists w p"
    using split_list_first_prop [of input_pdf_paths "\<lambda>p. \<not> os_path_exists w p"] by auto
  have ce: "check_exist w input_pdf_paths
              = Inl (FileNotFoundError (''Input file not found: '' @ q))"
    unfolding sp using pre q by (rule check_exist_missing)
  have m: "merge w input_pdf_paths output_pdf_path preserve_bookmarks page_range
             = Inl (FileNotFoundError (''Input file not found: '' @ q))"
    using False ce by (simp add: merge_def)
  have "q \<in> set input_pdf_paths" using sp by simp
  with m q False show ?thesis by (auto simp: merge_pdfs_def)
qed

theorem merge_fails_before_writing_witness:
  "merge_pdfs example_world [''A.pdf'', ''missing.pdf'', ''B.pdf''] ''out.pdf'' True None
     = (False, example_world) \<and>
   merge example_world [''A.pdf'', ''missing.pdf'', ''B.pdf''] ''out.pdf'' True None
     = Inl (FileNotFoundError ''Input file not found: missing.pdf'') \<and>
   merge_pdfs example_world [] ''out.pdf'' True None = (False, example_world) \<and>
   files example_world ''out.pdf'' = None"
  using
    merge_fails_before_writing [of "[''A.pdf'', ''missing.pdf'', ''B.pdf'']" example_world
      "''out.pdf''" True None]
    merge_fails_before_writing [of "[]" example_world "''out.pdf''" True None]
  by (simp add: os_path_exists_def example_world_def)

text \<open>
  C8, as the claim states it, fails: given the single string \<^verbatim>\<open>A.pdf\<close>, an existing file
  that is no directory, \<^verbatim>\<open>convert_merge_pdfs\<close> does not return the boolean \<^verbatim>\<open>False\<close>; the
  \<^verbatim>\<open>ValueError\<close> leaves the function as an exception.
\<close>

theorem single_file_string_counterexample:
  "fst (convert_merge_pdfs example_world (PathString ''A.pdf'') None True) \<noteq> Inr False \<and>
   fst (convert_merge_pdfs example_world (PathString ''A.pdf'') None True)
     = Inl (ValueError ''Single string input must be a directory path'')"
  by (simp add: convert_merge_pdfs_def resolve_input_paths_def os_path_isdir_def
      example_world_def)

text \<open>
  C8, amended. Given a single string that is no directory path, \<^verbatim>\<open>convert_merge_pdfs\<close>
  raises the \<^verbatim>\<open>ValueError\<close> of line 119, and the exception leaves the function: the raise
  stands outside every \<^verbatim>\<open>try\<close>, the catch-all boundary lies inside \<^verbatim>\<open>merge_pdfs\<close>, which is
  not reached. Nothing is written.
\<close>

theorem single_string_raises:
  assumes "\<not> os_path_isdir w s"
  shows "convert_merge_pdfs w (PathString s) output_path preserve_bookmarks
           = (Inl (ValueError ''Single string input must be a directory path''), w)"
  using assms by (simp add: convert_merge_pdfs_def resolve_input_paths_def)

theorem single_string_raises_witness:
  "convert_merge_pdfs
     \<lparr>files = [''a.pdf'' \<mapsto> PdfFile \<lparr>pages = [], outline = []\<rparr>],
      writable = (\<lambda>p. True), clone_raises = (\<lambda>wr reader. None)\<rparr>
     (PathString ''a.pdf'') None True
   = (Inl (ValueError ''Single string input must be a directory path''),
      \<lparr>files = [''a.pdf'' \<mapsto> PdfFile \<lparr>pages = [], outline = []\<rparr>],
       writable = (\<lambda>p. True), clone_raises = (\<lambda>wr reader. None)\<rparr>)"
  using single_string_raises [of
     "\<lparr>files = [''a.pdf'' \<mapsto> PdfFile \<lparr>pages = [], outline = []\<rparr>],
      writable = (\<lambda>p. True), clone_raises = (\<lambda>wr reader. None)\<rparr>" "''a.pdf''" None True]
  by (simp add: os_path_isdir_def)

text \<open>
  C5. For a source page whose media box has non-zero sides (a zero side makes the scale
  computation raise before the flattening), the flattening transform of lines 104-117 is
  the counter-rotation by the negated rotation followed by the translation by
  \<open>(0, originalWidth)\<close> for 90, \<open>(originalWidth, originalHeight)\<close> for 180 and
  \<open>(originalHeight, 0)\<close> for 270, and it precedes the scale and the positioning
  translation; for rotation 0 the transformation consists of the scale and the positioning
  translation alone.
\<close>

theorem flatten_by_rotation:
  assumes "mediabox_width src \<noteq> 0" and "mediabox_height src \<noteq> 0"
  shows
   "(page_rotation src = 0 \<longrightarrow>
       flatten (page_rotation src) (mediabox_width src) (mediabox_height src) [] = Inr [] \<and>
       (\<exists>s tx ty. page_transform L side src = Inr [OpScale s s, OpTranslate tx ty])) \<and>
    (page_rotation src = 90 \<longrightarrow>
       flatten (page_rotation src) (mediabox_width src) (mediabox_height src) []
         = Inr [OpRotate (- 90), OpTranslate 0 (mediabox_width src)] \<and>
       (\<exists>s tx ty. page_transform L side src
          = Inr [OpRotate (- 90), OpTranslate 0 (mediabox_width src),
                 OpScale s s, OpTranslate tx ty])) \<and>
    (page_rotation src = 180 \<longrightarrow>
       flatten (page_rotation src) (mediabox_width src) (mediabox_height src) []
         = Inr [OpRotate (- 180), OpTranslate (mediabox_width src) (mediabox_height src)] \<and>
       (\<exists>s tx ty. page_transform L side src
          = Inr [OpRotate (- 180), OpTranslate (mediabox_width src) (mediabox_height src),
                 OpScale s s, OpTranslate tx ty])) \<and>
    (page_rotation src = 270 \<longrightarrow>
       flatten (page_rotation src) (mediabox_width src) (mediabox_height src) []
         = Inr [OpRotate (- 270), OpTranslate (mediabox_height src) 0] \<and>
       (\<exists>s tx ty. page_transform L side src
          = Inr [OpRotate (- 270), OpTranslate (mediabox_height src) 0,
                 OpScale s s, OpTranslate tx ty]))"
proof -
  have fs: "fit_scale aw ah (mediabox_width src) (mediabox_height src) su
              = Inr (spec_scale aw ah (mediabox_width src) (mediabox_height src) su)"
       "fit_scale aw ah (mediabox_height src) (mediabox_width src) su
              = Inr (spec_scale aw ah (mediabox_height src) (mediabox_width src) su)"
    for aw ah su
    using assms by (simp_all add: fit_scale_ok)
  show ?thesis
    by (simp add: page_transform_def viewed_dims_def flatten_def Let_def fs)
qed

theorem flatten_by_rotation_witness:
  "page_transform
     \<lparr>output_width = 800, output_height = 600, available_width = 380,
      available_height = 580, scale_up = False\<rparr> 1
     \<lparr>mediabox_width = 200, mediabox_height = 100, page_rotate = RotateInt 270,
      page_content = SourceContent ''a''\<rparr>
   = Inr [OpRotate (- 270), OpTranslate 100 0, OpScale 1 1, OpTranslate 550 200]"
  using flatten_by_rotation [of
      "\<lparr>mediabox_width = 200, mediabox_height = 100, page_rotate = RotateInt 270,
        page_content = SourceContent ''a''\<rparr>"
      "\<lparr>output_width = 800, output_height = 600, available_width = 380,
        available_height = 580, scale_up = False\<rparr>" 1]
  by (simp add: page_rotation_def page_transform_def viewed_dims_def fit_scale_def
      flatten_def Let_def)

text \<open>
  C10. In \<^verbatim>\<open>convert_pdf_2_pages_per_sheet\<close> every \<^verbatim>\<open>page_format\<close> whose upper-cased form is
  not \<^verbatim>\<open>A4\<close> selects the Letter size: the engine is called with the pair \<open>(612, 792)\<close>,
  which its page-size resolution accepts, so the call never raises the unknown-page-size
  error of line 32, whatever the format name was.
\<close>

theorem unknown_format_is_letter:
  assumes "upper page_format \<noteq> ''A4''"
  shows "convert_pdf_2_pages_per_sheet w input_path output_path page_format =
           (if \<not> os_path_exists w input_path then (False, w)
            else create_2_pages_per_sheet w input_path
                   (case output_path of
                      None \<Rightarrow> fst (splitext input_path) @ ''_2pp.pdf''
                    | Some p \<Rightarrow> p)
                   (SizeTuple 612 792) 12 False) \<and>
         resolve_page_size (SizeTuple 612 792) = Inr letter \<and>
         (\<forall>out. impose w input_path out (SizeTuple 612 792) 12 False
            \<noteq> Inl (ValueError
                 ''Unknown page_size string. Use 'A4' or provide (w,h) in points.''))"
proof -
  have a: "convert_pdf_2_pages_per_sheet w input_path output_path page_format =
           (if \<not> os_path_exists w input_path then (False, w)
            else create_2_pages_per_sheet w input_path
                   (case output_path of
                      None \<Rightarrow> fst (splitext input_path) @ ''_2pp.pdf''
                    | Some p \<Rightarrow> p)
                   (SizeTuple 612 792) 12 False)"
    using assms by (simp add: convert_pdf_2_pages_per_sheet_def letter_def Let_def)
  have b: "resolve_page_size (SizeTuple 612 792) = Inr letter"
    by (simp add: resolve_page_size_def letter_def)
  have c: "impose w input_path out (SizeTuple 612 792) 12 False
            \<noteq> Inl (ValueError
                 ''Unknown page_size string. Use 'A4' or provide (w,h) in points.'')" for out
    using impose_tuple_error by blast
  show ?thesis using a b c by blast
qed

theorem unknown_format_is_letter_witness:
  "convert_pdf_2_pages_per_sheet
     \<lparr>files = [''a.pdf'' \<mapsto> PdfFile \<lparr>pages = [], outline = []\<rparr>],
      writable = (\<lambda>p. True), clone_raises = (\<lambda>wr reader. None)\<rparr> ''a.pdf'' None ''Foo''
   = create_2_pages_per_sheet
     \<lparr>files = [''a.pdf'' \<mapsto> PdfFile \<lparr>pages = [], outline = []\<rparr>],
      writable = (\<lambda>p. True), clone_raises = (\<lambda>wr reader. None)\<rparr> ''a.pdf'' ''a_2pp.pdf'' (SizeTuple 612 792) 12 False"
  using unknown_format_is_letter [of "''Foo''"
     "\<lparr>files = [''a.pdf'' \<mapsto> PdfFile \<lparr>pages = [], outline = []\<rparr>],
      writable = (\<lambda>p. True), clone_raises = (\<lambda>wr reader. None)\<rparr>" "''a.pdf''" None]
  by (simp add: upper_def upper_char_def os_path_exists_def splitext_def Let_def)

text \<open>
  C1. Let the source be a readable document of \<open>N \<ge> 1\<close> pages, each with a quarter-turn
  rotation and a media box with non-zero sides, and let the call meet no other failure of
  the engine (the page size resolves, the margins fit, the destination can be written).
  Then \<^verbatim>\<open>create_2_pages_per_sheet\<close> succeeds and writes a document of exactly
  \<open>\<lceil>N / 2\<rceil>\<close> sheets; when \<open>N\<close> is odd the last sheet carries one layer only, the last
  source page under its left-half transformation, so its right half is blank, and the
  call still succeeds.
\<close>

theorem imposition_page_count:
  assumes "files w input_pdf_path = Some (PdfFile reader)"
    and "pages reader \<noteq> []"
    and "\<forall>p \<in> set (pages reader). placeable p"
    and "resolve_page_size page_size = Inr (pw, ph)"
    and "margins_fit pw ph margin_pt"
    and "writable w output_pdf_path" and "\<not> os_path_isdir w output_pdf_path"
  shows "\<exists>sheets.
           create_2_pages_per_sheet w input_pdf_path output_pdf_path page_size margin_pt su
             = (True, w\<lparr>files := (files w)(output_pdf_path \<mapsto>
                  PdfFile \<lparr>pages = sheets, outline = []\<rparr>)\<rparr>) \<and>
           int (length sheets) = \<lceil>real (length (pages reader)) / 2\<rceil> \<and>
           (odd (length (pages reader)) \<longrightarrow>
              (\<exists>t. page_transform (sheet_layout pw ph margin_pt su) 0 (last (pages reader))
                     = Inr t \<and>
                   page_content (last sheets) = Layers [(page_content (last (pages reader)), t)]))"
proof -
  let ?L = "sheet_layout pw ph margin_pt su"
  from sheets_loop_ok [OF assms(3), of ?L 0 "[]"] obtain sheets where
    loop: "sheets_loop ?L (pages reader) 0 [] = Inr sheets" and
    len: "length sheets = (length (pages reader) + 1) div 2" and
    lst: "0 < length (pages reader) \<and> odd (length (pages reader)) \<longrightarrow>
            (\<exists>t. page_transform ?L 0 (last (pages reader)) = Inr t \<and>
                 last sheets = merge_transformed_page
                   (create_blank_page (output_width ?L) (output_height ?L))
                   (last (pages reader)) t)"
    by auto
  have imp: "impose w input_pdf_path output_pdf_path page_size margin_pt su
          = write_pdf w output_pdf_path \<lparr>pages = sheets, outline = []\<rparr>"
    using impose_sheets [OF assms(4) PdfReader_file [OF assms(1)] assms(5), of output_pdf_path su]
      loop by simp
  have res: "create_2_pages_per_sheet w input_pdf_path output_pdf_path page_size margin_pt su
             = (True, w\<lparr>files := (files w)(output_pdf_path \<mapsto>
                  PdfFile \<lparr>pages = sheets, outline = []\<rparr>)\<rparr>)"
    using imp write_pdf_ok [OF assms(6,7)] by (simp add: create_2_pages_per_sheet_def)
  have cnt: "int (length sheets) = \<lceil>real (length (pages reader)) / 2\<rceil>"
    using len by (simp add: ceiling_half)
  have odd: "\<exists>t. page_transform ?L 0 (last (pages reader)) = Inr t \<and>
               page_content (last sheets) = Layers [(page_content (last (pages reader)), t)]"
    if "odd (length (pages reader))"
  proof -
    from lst that assms(2) obtain t where
      t: "page_transform ?L 0 (last (pages reader)) = Inr t" and
      l: "last sheets = merge_transformed_page
                   (create_blank_page (output_width ?L) (output_height ?L))
                   (last (pages reader)) t"
      by auto
    have "page_content (last sheets) = Layers [(page_content (last (pages reader)), t)]"
      unfolding l by (simp add: merge_transformed_page_def create_blank_page_def)
    with t show ?thesis by blast
  qed
  show ?thesis using res cnt odd by blast
qed

theorem imposition_page_count_witness:
  "\<exists>sheets.
     create_2_pages_per_sheet example_world ''A.pdf'' ''out.pdf'' (SizeTuple 600 800) 10 False
       = (True, example_world\<lparr>files := (files example_world)(''out.pdf'' \<mapsto>
            PdfFile \<lparr>pages = sheets, outline = []\<rparr>)\<rparr>) \<and>
     length sheets = 2 \<and>
     page_content (last sheets) =
       Layers [(SourceContent ''A2'',
                [OpRotate (- 270), OpTranslate 580 0, OpScale (19 / 29) (19 / 29),
                 OpTranslate 10 (1480 / 29)])]"
proof -
  have h1: "files example_world ''A.pdf'' = Some (PdfFile doc_A)"
    by (simp add: example_world_def)
  have h2: "pages doc_A \<noteq> []" by (simp add: doc_A_def)
  have h3: "\<forall>p \<in> set (pages doc_A). placeable p"
    by (simp add: doc_A_def placeable_def page_rotation_def page_a_def page_b_def page_c_def)
  have h4: "resolve_page_size (SizeTuple 600 800) = Inr (600, 800)"
    by (simp add: resolve_page_size_def)
  have h5: "margins_fit 600 800 10" by (simp add: margins_fit_def)
  have h6: "writable example_world ''out.pdf''" by (simp add: example_world_def)
  have h7: "\<not> os_path_isdir example_world ''out.pdf''"
    by (simp add: example_world_def os_path_isdir_def)
  have n: "length (pages doc_A) = 3" "last (pages doc_A) = page_c" by (simp_all add: doc_A_def)
  have t: "page_transform (sheet_layout 600 800 10 False) 0 page_c
             = Inr [OpRotate (- 270), OpTranslate 580 0, OpScale (19 / 29) (19 / 29),
                    OpTranslate 10 (1480 / 29)]"
    by (simp add: page_transform_def sheet_layout_def page_c_def page_rotation_def
        viewed_dims_def fit_scale_def flatten_def Let_def)
  have c: "page_content page_c = SourceContent ''A2''" by (simp add: page_c_def)
  from imposition_page_count [OF h1 h2 h3 h4 h5 h6 h7, of False]
  show ?thesis unfolding n t c ceiling_half by auto
qed

text \<open>
  C9. For a readable source document without pages the engine has exactly two outcomes,
  decided by its arguments: when the page size resolves, the margins fit and the
  destination can be written, it succeeds and writes a document of 0 pages; otherwise it
  returns \<^verbatim>\<open>False\<close> and leaves the file system as it was.
\<close>

theorem empty_document_imposition:
  assumes "files w input_pdf_path = Some (PdfFile reader)" and "pages reader = []"
  shows "create_2_pages_per_sheet w input_pdf_path output_pdf_path page_size margin_pt su =
           (case resolve_page_size page_size of
              Inl e \<Rightarrow> (False, w)
            | Inr (pw, ph) \<Rightarrow>
                if margins_fit pw ph margin_pt \<and> writable w output_pdf_path
                     \<and> \<not> os_path_isdir w output_pdf_path
                then (True, w\<lparr>files := (files w)(output_pdf_path \<mapsto>
                        PdfFile \<lparr>pages = [], outline = []\<rparr>)\<rparr>)
                else (False, w))"
proof (cases "resolve_page_size page_size")
  case (Inl e)
  then show ?thesis by (simp add: create_2_pages_per_sheet_def impose_def)
next
  case (Inr sz)
  obtain pw ph where sz: "sz = (pw, ph)" by (cases sz)
  note r = Inr [unfolded sz]
  note rd = PdfReader_file [OF assms(1)]
  show ?thesis
  proof (cases "margins_fit pw ph margin_pt")
    case False
    then show ?thesis
      using impose_margins [OF r rd False, of output_pdf_path su] r
      by (simp add: create_2_pages_per_sheet_def)
  next
    case True
    have loop: "sheets_loop (sheet_layout pw ph margin_pt su) (pages reader) 0 [] = Inr []"
      using assms(2) by (simp add: sheets_loop.simps)
    have imp: "impose w input_pdf_path output_pdf_path page_size margin_pt su
          = write_pdf w output_pdf_path \<lparr>pages = [], outline = []\<rparr>"
      using impose_sheets [OF r rd True, of output_pdf_path su] loop by simp
    show ?thesis
      using imp r True by (simp add: create_2_pages_per_sheet_def write_pdf_def)
  qed
qed

theorem empty_document_imposition_witness:
  "create_2_pages_per_sheet example_world ''empty.pdf'' ''out.pdf'' (SizeName ''a4'') 12 False
     = (True, example_world\<lparr>files := (files example_world)(''out.pdf'' \<mapsto>
          PdfFile \<lparr>pages = [], outline = []\<rparr>)\<rparr>) \<and>
   create_2_pages_per_sheet example_world ''empty.pdf'' ''out.pdf'' (SizeName ''a4'') 300 False
     = (False, example_world) \<and>
   create_2_pages_per_sheet example_world ''empty.pdf'' ''out.pdf'' (SizeName ''Letter'') 12 False
     = (False, example_world)"
proof -
  have h1: "files example_world ''empty.pdf'' = Some (PdfFile doc_empty)"
    by (simp add: example_world_def)
  have h2: "pages doc_empty = []" by (simp add: doc_empty_def)
  have u: "upper ''a4'' = ''A4''" "upper ''Letter'' \<noteq> ''A4''" by code_simp+
  have r: "resolve_page_size (SizeName ''a4'') = Inr A4"
    "resolve_page_size (SizeName ''Letter'')
       = Inl (ValueError ''Unknown page_size string. Use 'A4' or provide (w,h) in points.'')"
    by (simp_all add: resolve_page_size_def u)
  have m: "margins_fit (fst A4) (snd A4) 12" "\<not> margins_fit (fst A4) (snd A4) 300"
    by (simp_all add: margins_fit_def A4_def)
  have o: "writable example_world ''out.pdf''" "\<not> os_path_isdir example_world ''out.pdf''"
    by (simp_all add: example_world_def os_path_isdir_def)
  show ?thesis
    using empty_document_imposition [OF h1 h2, of "''out.pdf''" "SizeName ''a4''" 12 False]
      empty_document_imposition [OF h1 h2, of "''out.pdf''" "SizeName ''a4''" 300 False]
      empty_document_imposition [OF h1 h2, of "''out.pdf''" "SizeName ''Letter''" 12 False]
      m o
    by (simp add: r case_prod_beta)
qed

end
